theory Spec2Isabelle
  imports Complex_Main
begin

section \<open>Values shared by the harness and the selector\<close>

text \<open>
  The embedding follows \<^verbatim>\<open>src/big_o/big_o.py\<close>. Python exceptions are values of
  \<open>error\<close>: \<open>ValueError\<close> is what \<^verbatim>\<open>np.linspace\<close> raises on a negative number of samples
  and what \<^verbatim>\<open>np.min\<close> raises on an empty sequence; \<open>CallableError\<close> stands for any exception
  raised by the callable under test or by the data generator, \<open>FitError\<close> for any exception
  raised inside \<^verbatim>\<open>inst.fit\<close>. None of them is caught in the source, so each one propagates.
\<close>

datatype error = ValueError | CallableError | FitError

text \<open>
  A residual is a Python float. The selector starts from \<^verbatim>\<open>np.inf\<close> and compares with \<^verbatim>\<open><\<close>,
  so the infinities and NaN are kept as values of their own; finite floats are idealised as
  reals (no rounding).
\<close>

datatype npfloat = Finite real | PosInf | NegInf | NaN

text \<open>\<^verbatim>\<open>x - e\<close> for a finite \<open>e\<close>.\<close>

fun float_sub :: "npfloat \<Rightarrow> real \<Rightarrow> npfloat" where
  "float_sub (Finite a) e = Finite (a - e)"
| "float_sub PosInf e = PosInf"
| "float_sub NegInf e = NegInf"
| "float_sub NaN e = NaN"

text \<open>\<^verbatim>\<open>x < y\<close> on floats: every comparison with NaN is false.\<close>

fun float_less :: "npfloat \<Rightarrow> npfloat \<Rightarrow> bool" where
  "float_less NaN y = False"
| "float_less x NaN = False"
| "float_less (Finite a) (Finite b) = (a < b)"
| "float_less (Finite a) PosInf = True"
| "float_less (Finite a) NegInf = False"
| "float_less PosInf y = False"
| "float_less NegInf NegInf = False"
| "float_less NegInf y = True"

text \<open>
  The world the three functions run in: how often the callable under test has been invoked,
  the sizes the data generator has been called with (oldest first), and the number of
  objects allocated so far, which gives every newly constructed model instance its identity.
\<close>

record world =
  calls :: nat
  generated :: "int list"
  allocated :: nat

section \<open>The model selector\<close>

text \<open>
  A model instance: \<^verbatim>\<open>inst = class_()\<close> allocates a new object of the class with no
  coefficients; \<^verbatim>\<open>inst.fit(ns, time)\<close> stores the fitted coefficients on it and returns the
  residual. The module \<^verbatim>\<open>big_o.complexities\<close> is not part of the sources at hand, so a
  class is a value of a type \<open>'c\<close> and its \<^verbatim>\<open>fit\<close> is a parameter
  \<open>fit :: 'c \<Rightarrow> int list \<Rightarrow> real list \<Rightarrow> error + 'p \<times> npfloat\<close>: either it raises, or it yields
  the coefficients and the residual. Instances are dictionary keys by object identity
  (Python's default hash and equality), which is the field \<open>inst_id\<close>.
\<close>

record ('c, 'p) model_instance =
  inst_id :: nat
  inst_class :: 'c
  coeff :: "'p option"

text \<open>
  The dictionary \<^verbatim>\<open>fitted\<close>: its keys are model instances and, after \<^verbatim>\<open>big_o\<close> with
  \<^verbatim>\<open>return_raw_data\<close>, the two strings; its values are residuals and the two arrays. Python
  dictionaries keep insertion order, so it is an association list.
\<close>

datatype ('c, 'p) key = Inst "('c, 'p) model_instance" | Str string

datatype dvalue = Residual npfloat | Sizes "int list" | Times "real list"

type_synonym ('c, 'p) dict = "(('c, 'p) key \<times> dvalue) list"

text \<open>\<^verbatim>\<open>d[k] = v\<close>: an existing key keeps its place and gets the new value, a new key is appended.\<close>

fun dict_set :: "('k \<times> 'v) list \<Rightarrow> 'k \<Rightarrow> 'v \<Rightarrow> ('k \<times> 'v) list" where
  "dict_set [] k v = [(k, v)]"
| "dict_set ((k', v') # d) k v =
     (if k' = k then (k', v) # d else (k', v') # dict_set d k v)"

text \<open>
  The body of \<^verbatim>\<open>for class_ in classes\<close>, with \<open>cls\<close> for \<^verbatim>\<open>class_\<close> and the loop's variables
  \<open>(best_class, best_residuals, fitted)\<close> passed along. The call of \<^verbatim>\<open>log\<close> only prints
  (and only when \<^verbatim>\<open>verbose\<close> is set), so it is left out.
\<close>

fun infer_loop ::
  "('c \<Rightarrow> int list \<Rightarrow> real list \<Rightarrow> error + 'p \<times> npfloat) \<Rightarrow> int list \<Rightarrow> real list \<Rightarrow>
   'c list \<Rightarrow> ('c, 'p) model_instance option \<times> npfloat \<times> ('c, 'p) dict \<Rightarrow> world \<Rightarrow>
   (error + ('c, 'p) model_instance option \<times> npfloat \<times> ('c, 'p) dict) \<times> world" where
  "infer_loop fit ns time [] st w = (Inr st, w)"
| "infer_loop fit ns time (cls # classes) (best_class, best_residuals, fitted) w =
     (let inst = \<lparr>inst_id = allocated w, inst_class = cls, coeff = None\<rparr>;
          w1 = w\<lparr>allocated := Suc (allocated w)\<rparr>
      in case fit cls ns time of
           Inl e \<Rightarrow> (Inl e, w1)
         | Inr (p, residuals) \<Rightarrow>
             (let inst' = inst\<lparr>coeff := Some p\<rparr>;
                  fitted' = dict_set fitted (Inst inst') (Residual residuals)
              in if float_less residuals (float_sub best_residuals (1 / 10 ^ 6))
                 then infer_loop fit ns time classes (Some inst', residuals, fitted') w1
                 else infer_loop fit ns time classes (best_class, best_residuals, fitted') w1))"

definition infer_big_o_class ::
  "('c \<Rightarrow> int list \<Rightarrow> real list \<Rightarrow> error + 'p \<times> npfloat) \<Rightarrow> int list \<Rightarrow> real list \<Rightarrow>
   'c list \<Rightarrow> world \<Rightarrow> (error + ('c, 'p) model_instance option \<times> ('c, 'p) dict) \<times> world" where
  "infer_big_o_class fit ns time classes w =
     (case infer_loop fit ns time classes (None, PosInf, []) w of
        (Inl e, w') \<Rightarrow> (Inl e, w')
      | (Inr (best_class, best_residuals, fitted), w') \<Rightarrow> (Inr (best_class, fitted), w'))"

section \<open>The timing harness\<close>

text \<open>
  \<^verbatim>\<open>np.linspace(start, stop, num)\<close> as NumPy computes it (endpoint included), in exact
  arithmetic: a negative \<open>num\<close> raises; otherwise \<open>y = [0, 1, ..., num - 1]\<close> is scaled by
  \<open>step = delta / div\<close> with \<open>div = num - 1\<close> (by \<open>delta\<close> itself when \<open>div\<close> is not positive,
  and as \<open>y / div * delta\<close> when the step is zero), shifted by \<open>start\<close>, and for \<open>num > 1\<close> the
  last element is overwritten with \<open>stop\<close>.
\<close>

definition linspace :: "real \<Rightarrow> real \<Rightarrow> int \<Rightarrow> error + real list" where
  "linspace start stop num =
     (if num < 0 then Inl ValueError
      else
        let n = nat num;
            dv = real_of_int (num - 1);
            delta = stop - start;
            y = map real [0..<n];
            step = delta / dv;
            y1 = (if 0 < dv
                  then (if step = 0 then map (\<lambda>v. v / dv * delta) y else map (\<lambda>v. v * step) y)
                  else map (\<lambda>v. v * delta) y);
            y2 = map (\<lambda>v. v + start) y1
        in Inr (if 1 < num then y2[n - 1 := stop] else y2))"

text \<open>
  \<^verbatim>\<open>.astype('int64')\<close> on a float: the fraction is dropped (rounding towards zero). A value
  outside the 64-bit range has no defined conversion; the model gives it the smallest 64-bit
  integer, which is what the conversion instruction of x86-64 produces, and every
  statement below that speaks about sizes assumes them in range.
\<close>

definition astype_int64 :: "real \<Rightarrow> int" where
  "astype_int64 x =
     (let t = (if 0 \<le> x then \<lfloor>x\<rfloor> else \<lceil>x\<rceil>)
      in if - (2 ^ 63) \<le> t \<and> t < 2 ^ 63 then t else - (2 ^ 63))"

text \<open>
  The callable under test is \<open>func :: nat \<Rightarrow> 'd \<Rightarrow> error + real\<close>: \<open>func k d\<close> is what its
  invocation on the data \<open>d\<close> does when \<open>k\<close> invocations came before it: it raises, or it
  takes that many seconds. The data generator is \<open>data_generator :: int \<Rightarrow> error + 'd\<close>.

  \<^verbatim>\<open>Timer.timeit(number)\<close> runs the statement \<open>number\<close> times between two readings of the
  clock and returns the difference, here the sum of the durations (the overhead of the
  timing loop itself is not modelled).
\<close>

fun timeit :: "(nat \<Rightarrow> 'd \<Rightarrow> error + real) \<Rightarrow> 'd \<Rightarrow> nat \<Rightarrow> world \<Rightarrow> (error + real) \<times> world" where
  "timeit func d 0 w = (Inr 0, w)"
| "timeit func d (Suc number) w =
     (case func (calls w) d of
        Inl e \<Rightarrow> (Inl e, w\<lparr>calls := Suc (calls w)\<rparr>)
      | Inr t \<Rightarrow>
          (case timeit func d number (w\<lparr>calls := Suc (calls w)\<rparr>) of
             (Inl e, w') \<Rightarrow> (Inl e, w')
           | (Inr s, w') \<Rightarrow> (Inr (t + s), w')))"

text \<open>\<^verbatim>\<open>Timer.repeat(repeat, number)\<close>: the list of \<open>repeat\<close> results of \<^verbatim>\<open>timeit(number)\<close>.\<close>

fun repeat ::
  "(nat \<Rightarrow> 'd \<Rightarrow> error + real) \<Rightarrow> 'd \<Rightarrow> nat \<Rightarrow> nat \<Rightarrow> world \<Rightarrow> (error + real list) \<times> world" where
  "repeat func d 0 number w = (Inr [], w)"
| "repeat func d (Suc r) number w =
     (case timeit func d number w of
        (Inl e, w') \<Rightarrow> (Inl e, w')
      | (Inr t, w') \<Rightarrow>
          (case repeat func d r number w' of
             (Inl e, w'') \<Rightarrow> (Inl e, w'')
           | (Inr ts, w'') \<Rightarrow> (Inr (t # ts), w'')))"

text \<open>\<^verbatim>\<open>np.min\<close> of a list of floats: an empty list raises.\<close>

fun np_min :: "real list \<Rightarrow> error + real" where
  "np_min [] = Inl ValueError"
| "np_min (x # xs) = Inr (fold min xs x)"

text \<open>
  The body of \<^verbatim>\<open>for i, n in enumerate(ns)\<close>. Constructing \<^verbatim>\<open>func_wrapper(n)\<close> calls the data
  generator once; \<^verbatim>\<open>range(repeat)\<close> and \<^verbatim>\<open>itertools.repeat(None, number)\<close> are empty for
  negative counts, hence \<open>nat\<close>. The call of \<^verbatim>\<open>log\<close> only prints and is left out.
\<close>

fun measure_loop ::
  "(nat \<Rightarrow> 'd \<Rightarrow> error + real) \<Rightarrow> (int \<Rightarrow> error + 'd) \<Rightarrow> int \<Rightarrow> int \<Rightarrow>
   (nat \<times> int) list \<Rightarrow> real list \<Rightarrow> world \<Rightarrow> (error + real list) \<times> world" where
  "measure_loop func data_generator n_repeats n_timings [] execution_time w =
     (Inr execution_time, w)"
| "measure_loop func data_generator n_repeats n_timings ((i, n) # rest) execution_time w =
     (let w1 = w\<lparr>generated := generated w @ [n]\<rparr>
      in case data_generator n of
           Inl e \<Rightarrow> (Inl e, w1)
         | Inr data \<Rightarrow>
             (case repeat func data (nat n_timings) (nat n_repeats) w1 of
                (Inl e, w2) \<Rightarrow> (Inl e, w2)
              | (Inr measurements, w2) \<Rightarrow>
                  (case np_min measurements of
                     Inl e \<Rightarrow> (Inl e, w2)
                   | Inr m \<Rightarrow>
                       measure_loop func data_generator n_repeats n_timings rest
                         (execution_time[i := m]) w2)))"

text \<open>
  \<^verbatim>\<open>np.empty(n_measures)\<close> is an array of arbitrary content, here zeros; the loop overwrites
  every slot.
\<close>

definition measure_execution_time ::
  "(nat \<Rightarrow> 'd \<Rightarrow> error + real) \<Rightarrow> (int \<Rightarrow> error + 'd) \<Rightarrow> int \<Rightarrow> int \<Rightarrow> int \<Rightarrow> int \<Rightarrow> int \<Rightarrow>
   world \<Rightarrow> (error + int list \<times> real list) \<times> world" where
  "measure_execution_time func data_generator min_n max_n n_measures n_repeats n_timings w =
     (case linspace (real_of_int min_n) (real_of_int max_n) n_measures of
        Inl e \<Rightarrow> (Inl e, w)
      | Inr ys \<Rightarrow>
          (let ns = map astype_int64 ys;
               execution_time = replicate (nat n_measures) 0
           in case measure_loop func data_generator n_repeats n_timings
                     (enumerate 0 ns) execution_time w of
                (Inl e, w') \<Rightarrow> (Inl e, w')
              | (Inr t, w') \<Rightarrow> (Inr (ns, t), w')))"

section \<open>The orchestrator\<close>

definition big_o ::
  "(nat \<Rightarrow> 'd \<Rightarrow> error + real) \<Rightarrow> (int \<Rightarrow> error + 'd) \<Rightarrow> int \<Rightarrow> int \<Rightarrow> int \<Rightarrow> int \<Rightarrow> int \<Rightarrow>
   ('c \<Rightarrow> int list \<Rightarrow> real list \<Rightarrow> error + 'p \<times> npfloat) \<Rightarrow> 'c list \<Rightarrow> bool \<Rightarrow>
   world \<Rightarrow> (error + ('c, 'p) model_instance option \<times> ('c, 'p) dict) \<times> world" where
  "big_o func data_generator min_n max_n n_measures n_repeats n_timings fit classes
         return_raw_data w =
     (case measure_execution_time func data_generator min_n max_n n_measures n_repeats
             n_timings w of
        (Inl e, w1) \<Rightarrow> (Inl e, w1)
      | (Inr (ns, time), w1) \<Rightarrow>
          (case infer_big_o_class fit ns time classes w1 of
             (Inl e, w2) \<Rightarrow> (Inl e, w2)
           | (Inr (best, fitted), w2) \<Rightarrow>
               (if return_raw_data
                then (Inr (best, dict_set (dict_set fitted (Str ''measures'') (Sizes ns))
                                   (Str ''times'') (Times time)), w2)
                else (Inr (best, fitted), w2))))"

section \<open>Notions used in the statements\<close>

text \<open>
  Every model instance that is a key of \<open>f\<close> was allocated before the counter reached \<open>a\<close>.
\<close>

definition fresh_keys :: "nat \<Rightarrow> ('c, 'p) dict \<Rightarrow> bool" where
  "fresh_keys a f = (\<forall>i v. (Inst i, v) \<in> set f \<longrightarrow> inst_id i < a)"



text \<open>
  Identities of instances depend on how many objects were allocated before the call. To
  compare two calls, \<open>rebase_result a\<close> gives every instance of a result its identity
  relative to the allocation count \<open>a\<close> at the start of the call; \<open>lift_inst d\<close> is the
  opposite shift.
\<close>

definition lift_inst :: "nat \<Rightarrow> ('c, 'p) model_instance \<Rightarrow> ('c, 'p) model_instance" where
  "lift_inst d i = i\<lparr>inst_id := inst_id i + d\<rparr>"

fun lift_key :: "nat \<Rightarrow> ('c, 'p) key \<Rightarrow> ('c, 'p) key" where
  "lift_key d (Inst i) = Inst (lift_inst d i)"
| "lift_key d (Str s) = Str s"

definition lift_dict :: "nat \<Rightarrow> ('c, 'p) dict \<Rightarrow> ('c, 'p) dict" where
  "lift_dict d f = map (\<lambda>(k, v). (lift_key d k, v)) f"

definition rebase_inst :: "nat \<Rightarrow> ('c, 'p) model_instance \<Rightarrow> ('c, 'p) model_instance" where
  "rebase_inst a i = i\<lparr>inst_id := inst_id i - a\<rparr>"

fun rebase_key :: "nat \<Rightarrow> ('c, 'p) key \<Rightarrow> ('c, 'p) key" where
  "rebase_key a (Inst i) = Inst (rebase_inst a i)"
| "rebase_key a (Str s) = Str s"

definition rebase_result ::
  "nat \<Rightarrow> ('c, 'p) model_instance option \<times> ('c, 'p) dict \<Rightarrow>
   ('c, 'p) model_instance option \<times> ('c, 'p) dict" where
  "rebase_result a res =
     (map_option (rebase_inst a) (fst res), map (\<lambda>(k, v). (rebase_key a k, v)) (snd res))"

text \<open>
  The orchestrator as the specification words it: the harness, then the selector on what
  the harness returned, an exception of the first ending the call.
\<close>

definition and_then ::
  "('s \<Rightarrow> (error + 'a) \<times> 's) \<Rightarrow> ('a \<Rightarrow> 's \<Rightarrow> (error + 'b) \<times> 's) \<Rightarrow> 's \<Rightarrow> (error + 'b) \<times> 's" where
  "and_then m k w = (case m w of (Inl e, w') \<Rightarrow> (Inl e, w') | (Inr a, w') \<Rightarrow> k a w')"

definition harness_then_selector ::
  "(nat \<Rightarrow> 'd \<Rightarrow> error + real) \<Rightarrow> (int \<Rightarrow> error + 'd) \<Rightarrow> int \<Rightarrow> int \<Rightarrow> int \<Rightarrow> int \<Rightarrow> int \<Rightarrow>
   ('c \<Rightarrow> int list \<Rightarrow> real list \<Rightarrow> error + 'p \<times> npfloat) \<Rightarrow> 'c list \<Rightarrow>
   world \<Rightarrow> (error + ('c, 'p) model_instance option \<times> ('c, 'p) dict) \<times> world" where
  "harness_then_selector func data_generator min_n max_n n_measures n_repeats n_timings fit classes =
     and_then
       (measure_execution_time func data_generator min_n max_n n_measures n_repeats n_timings)
       (\<lambda>(ns, time). infer_big_o_class fit ns time classes)"

section \<open>The selection loop\<close>

lemma dict_set_fresh: "k \<notin> fst ` set d \<Longrightarrow> dict_set d k v = d @ [(k, v)]"
  by (induction d) auto

lemma fresh_keys_notin:
  "fresh_keys a f \<Longrightarrow> inst_id i = a \<Longrightarrow> Inst i \<notin> fst ` set f"
  by (force simp: fresh_keys_def)

lemma fresh_keys_snoc:
  "fresh_keys a f \<Longrightarrow> inst_id i = a \<Longrightarrow> fresh_keys (Suc a) (f @ [(Inst i, v)])"
  by (auto simp: fresh_keys_def less_Suc_eq)

lemma infer_loop_entries:
  "infer_loop fit ns time cs (b, br, f) w = (Inr (b', br', f'), w') \<Longrightarrow>
   fresh_keys (allocated w) f \<Longrightarrow>
   \<exists>es. f' = f @ es \<and> length es = length cs \<and> w' = w\<lparr>allocated := allocated w + length cs\<rparr> \<and>
     (\<forall>i<length cs. \<exists>p r. fit (cs ! i) ns time = Inr (p, r) \<and>
        es ! i = (Inst \<lparr>inst_id = allocated w + i, inst_class = cs ! i, coeff = Some p\<rparr>,
                  Residual r))"
proof (induction cs arbitrary: b br f w)
  case Nil
  then show ?case by simp
next
  case (Cons c cs)
  from Cons.prems(1) obtain p r where fit: "fit c ns time = Inr (p, r)"
    by (auto simp: Let_def split: sum.splits)
  let ?inst = "\<lparr>inst_id = allocated w, inst_class = c, coeff = Some p\<rparr>"
  let ?w1 = "w\<lparr>allocated := Suc (allocated w)\<rparr>"
  let ?f1 = "f @ [(Inst ?inst, Residual r)]"
  have ds: "dict_set f (Inst ?inst) (Residual r) = ?f1"
    using fresh_keys_notin [OF Cons.prems(2), of ?inst] by (simp add: dict_set_fresh)
  from Cons.prems(1) fit ds obtain b1 br1 where
    rec: "infer_loop fit ns time cs (b1, br1, ?f1) ?w1 = (Inr (b', br', f'), w')"
    by (auto simp: Let_def split: if_splits)
  have fr: "fresh_keys (allocated ?w1) ?f1"
    using fresh_keys_snoc [OF Cons.prems(2), of ?inst] by simp
  from Cons.IH [OF rec fr] obtain es where es:
    "f' = ?f1 @ es" "length es = length cs"
    "w' = ?w1\<lparr>allocated := allocated ?w1 + length cs\<rparr>"
    "\<forall>i<length cs. \<exists>p r. fit (cs ! i) ns time = Inr (p, r) \<and>
        es ! i = (Inst \<lparr>inst_id = allocated ?w1 + i, inst_class = cs ! i, coeff = Some p\<rparr>,
                  Residual r)"
    by blast
  let ?es = "(Inst ?inst, Residual r) # es"
  have "f' = f @ ?es" using es(1) by simp
  moreover have "length ?es = length (c # cs)" using es(2) by simp
  moreover have "w' = w\<lparr>allocated := allocated w + length (c # cs)\<rparr>" using es(3) by simp
  moreover have "\<forall>i<length (c # cs). \<exists>p r. fit ((c # cs) ! i) ns time = Inr (p, r) \<and>
        ?es ! i = (Inst \<lparr>inst_id = allocated w + i, inst_class = (c # cs) ! i, coeff = Some p\<rparr>,
                  Residual r)"
  proof (intro allI impI)
    fix i assume "i < length (c # cs)"
    show "\<exists>p r. fit ((c # cs) ! i) ns time = Inr (p, r) \<and>
        ?es ! i = (Inst \<lparr>inst_id = allocated w + i, inst_class = (c # cs) ! i, coeff = Some p\<rparr>,
                  Residual r)"
    proof (cases i)
      case 0
      then show ?thesis using fit by simp
    next
      case (Suc j)
      with \<open>i < length (c # cs)\<close> have "j < length cs" by simp
      with es(4) Suc show ?thesis by simp
    qed
  qed
  ultimately show ?case by blast
qed






lemma fresh_keys_Nil: "fresh_keys a []"
  by (simp add: fresh_keys_def)

lemma infer_big_o_class_entries:
  assumes "infer_big_o_class fit ns time classes w = (Inr (best, fitted), w')"
  shows "length fitted = length classes \<and> w' = w\<lparr>allocated := allocated w + length classes\<rparr> \<and>
     (\<forall>i<length classes. \<exists>p r. fit (classes ! i) ns time = Inr (p, r) \<and>
        fitted ! i = (Inst \<lparr>inst_id = allocated w + i, inst_class = classes ! i, coeff = Some p\<rparr>,
                      Residual r))"
proof -
  from assms obtain br where
    loop: "infer_loop fit ns time classes (None, PosInf, []) w = (Inr (best, br, fitted), w')"
    by (auto simp: infer_big_o_class_def split: prod.splits sum.splits)
  from infer_loop_entries [OF loop fresh_keys_Nil] show ?thesis by auto
qed

lemma entries_distinct:
  assumes "\<forall>i<length (fitted :: ('c, 'p) dict). \<exists>p r.
        fitted ! i = (Inst \<lparr>inst_id = a + i, inst_class = cs ! i, coeff = Some p\<rparr>, Residual r)"
  shows "distinct (map fst fitted)"
proof -
  have "\<And>i j. i < length fitted \<Longrightarrow> j < length fitted \<Longrightarrow> i \<noteq> j \<Longrightarrow>
      fst (fitted ! i) \<noteq> fst (fitted ! j)"
  proof -
    fix i j assume ij: "i < length fitted" "j < length fitted" "i \<noteq> j"
    from assms ij(1) obtain p r where
      "fitted ! i = (Inst \<lparr>inst_id = a + i, inst_class = cs ! i, coeff = Some p\<rparr>, Residual r)"
      by blast
    moreover from assms ij(2) obtain q s where
      "fitted ! j = (Inst \<lparr>inst_id = a + j, inst_class = cs ! j, coeff = Some q\<rparr>, Residual s)"
      by blast
    ultimately show "fst (fitted ! i) \<noteq> fst (fitted ! j)" using ij(3) by simp
  qed
  then show ?thesis by (simp add: distinct_conv_nth)
qed



lemma entries_only_models:
  assumes "infer_big_o_class fit ns time classes w = (Inr (best, fitted), w')"
  shows "\<forall>kv\<in>set fitted. \<exists>i r. kv = (Inst i, Residual r)"
proof
  fix kv assume "kv \<in> set fitted"
  then obtain n where n: "n < length fitted" "fitted ! n = kv"
    by (auto simp: in_set_conv_nth)
  with infer_big_o_class_entries [OF assms] show "\<exists>i r. kv = (Inst i, Residual r)"
    by auto
qed

section \<open>Independence of the allocation state\<close>

lemma rebase_lift_inst: "rebase_inst a (lift_inst a i) = i"
  by (simp add: rebase_inst_def lift_inst_def)

lemma rebase_lift_key: "rebase_key a (lift_key a k) = k"
  by (cases k) (simp_all add: rebase_lift_inst)

lemma lift_key_inj: "lift_key d k = lift_key d k' \<Longrightarrow> k = k'"
  by (metis rebase_lift_key)

lemma dict_set_lift:
  "dict_set (lift_dict d f) (lift_key d k) v = lift_dict d (dict_set f k v)"
  by (induction f) (auto simp: lift_dict_def dest: lift_key_inj)

lemma infer_loop_lift:
  "allocated w = allocated w0 + d \<Longrightarrow>
   fst (infer_loop fit ns time cs (map_option (lift_inst d) b, br, lift_dict d f) w) =
   map_sum id (\<lambda>(b', br', f'). (map_option (lift_inst d) b', br', lift_dict d f'))
     (fst (infer_loop fit ns time cs (b, br, f) w0))"
proof (induction cs arbitrary: b br f w w0)
  case Nil
  then show ?case by simp
next
  case (Cons c cs)
  show ?case
  proof (cases "fit c ns time")
    case (Inl e)
    then show ?thesis by (simp add: Let_def)
  next
    case (Inr pr)
    obtain p r where pr: "pr = (p, r)" by (cases pr)
    let ?j = "\<lparr>inst_id = allocated w0, inst_class = c, coeff = Some p\<rparr>"
    let ?i = "\<lparr>inst_id = allocated w, inst_class = c, coeff = Some p\<rparr>"
    have i: "?i = lift_inst d ?j" using Cons.prems by (simp add: lift_inst_def)
    have ds: "dict_set (lift_dict d f) (Inst ?i) (Residual r)
        = lift_dict d (dict_set f (Inst ?j) (Residual r))"
      unfolding i using dict_set_lift [of d f "Inst ?j"] by simp
    have al: "allocated (w\<lparr>allocated := Suc (allocated w)\<rparr>)
        = allocated (w0\<lparr>allocated := Suc (allocated w0)\<rparr>) + d"
      using Cons.prems by simp
    show ?thesis
    proof (cases "float_less r (float_sub br (1 / 10 ^ 6))")
      case True
      from Cons.IH [OF al, of "Some ?j" r "dict_set f (Inst ?j) (Residual r)"]
      show ?thesis using True Inr pr ds i by (simp add: Let_def)
    next
      case False
      from Cons.IH [OF al, of b br "dict_set f (Inst ?j) (Residual r)"]
      show ?thesis using False Inr pr ds by (simp add: Let_def)
    qed
  qed
qed

lemma rebase_lift_result:
  "rebase_result a (map_option (lift_inst a) b, lift_dict a f) = (b, f)"
proof -
  have "map (\<lambda>(k, v). (rebase_key a k, v)) (lift_dict a f) = f"
    by (induction f) (auto simp: lift_dict_def rebase_lift_key)
  moreover have "map_option (rebase_inst a) (map_option (lift_inst a) b) = b"
    by (cases b) (simp_all add: rebase_lift_inst)
  ultimately show ?thesis by (simp add: rebase_result_def)
qed

lemma infer_big_o_class_canonical:
  "map_sum id (rebase_result (allocated w)) (fst (infer_big_o_class fit ns time classes w)) =
   fst (infer_big_o_class fit ns time classes \<lparr>calls = 0, generated = [], allocated = 0\<rparr>)"
proof -
  let ?w0 = "\<lparr>calls = 0, generated = [], allocated = 0\<rparr>"
  have al: "allocated w = allocated ?w0 + allocated w" by simp
  from infer_loop_lift [OF al, of fit ns time classes None PosInf "[]"]
  have l: "fst (infer_loop fit ns time classes (None, PosInf, []) w) =
     map_sum id (\<lambda>(b', br', f'). (map_option (lift_inst (allocated w)) b', br', lift_dict (allocated w) f'))
       (fst (infer_loop fit ns time classes (None, PosInf, []) ?w0))"
    by (simp add: lift_dict_def)
  obtain x0 w0' where r0: "infer_loop fit ns time classes (None, PosInf, []) ?w0 = (x0, w0')"
    by (cases "infer_loop fit ns time classes (None, PosInf, []) ?w0")
  obtain x w' where r: "infer_loop fit ns time classes (None, PosInf, []) w = (x, w')"
    by (cases "infer_loop fit ns time classes (None, PosInf, []) w")
  show ?thesis
  proof (cases x0)
    case (Inl e)
    with l r0 r show ?thesis by (simp add: infer_big_o_class_def)
  next
    case (Inr st)
    obtain b br f where st: "st = (b, br, f)" by (cases st)
    with l r0 r Inr show ?thesis
      by (simp add: infer_big_o_class_def rebase_lift_result)
  qed
qed

section \<open>The timing loop\<close>

text \<open>
  For a callable and a generator that never raise, the timer functions have closed forms:
  invocation \<open>k\<close> of the callable takes \<open>dur k d\<close> seconds on the data \<open>d\<close>.
\<close>

lemma timeit_total:
  "timeit (\<lambda>k d. Inr (dur k d)) d number w =
     (Inr (\<Sum>j<number. dur (calls w + j) d), w\<lparr>calls := calls w + number\<rparr>)"
proof (induction number arbitrary: w)
  case 0
  then show ?case by simp
next
  case (Suc number)
  show ?case
    by (simp add: Suc.IH sum.lessThan_Suc_shift del: sum.lessThan_Suc)
qed

lemma repeat_total:
  "repeat (\<lambda>k d. Inr (dur k d)) d r number w =
     (Inr (map (\<lambda>i. \<Sum>j<number. dur (calls w + i * number + j) d) [0..<r]),
      w\<lparr>calls := calls w + r * number\<rparr>)"
proof (induction r arbitrary: w)
  case 0
  then show ?case by simp
next
  case (Suc r)
  have "map (\<lambda>i. \<Sum>j<number. dur (calls w + i * number + j) d) [0..<Suc r] =
      (\<Sum>j<number. dur (calls w + j) d) #
      map (\<lambda>i. \<Sum>j<number. dur (calls w + number + i * number + j) d) [0..<r]"
    by (simp add: upt_conv_Cons map_Suc_upt [symmetric] add.assoc add.left_commute del: upt_Suc)
  then show ?case
    by (simp add: timeit_total Suc.IH add.assoc del: upt_Suc)
qed

lemma np_min_Min:
  assumes "xs \<noteq> []"
  shows "np_min xs = Inr (Min (set xs))"
proof (cases xs)
  case Nil
  with assms show ?thesis by simp
next
  case (Cons x ys)
  with Min.set_eq_fold [of x ys] show ?thesis by simp
qed


lemma measure_loop_total:
  assumes "0 < T" and R: "nat n_repeats = R" and T: "nat n_timings = T"
  shows "\<exists>et'. measure_loop (\<lambda>k d. Inr (dur k d)) (\<lambda>n. Inr (gen n)) n_repeats n_timings
            (enumerate k ns) et w =
       (Inr et', w\<lparr>generated := generated w @ ns, calls := calls w + length ns * (T * R)\<rparr>) \<and>
     length et' = length et \<and>
     (\<forall>j<k. et' ! j = et ! j) \<and>
     (\<forall>i<length ns. k + i < length et \<longrightarrow>
        et' ! (k + i) =
          Min ((\<lambda>r. \<Sum>j<R. dur (calls w + i * (T * R) + r * R + j) (gen (ns ! i))) ` {..<T}))"
proof (induction ns arbitrary: k et w)
  case Nil
  then show ?case by simp
next
  case (Cons n ns)
  let ?w1 = "w\<lparr>generated := generated w @ [n]\<rparr>"
  let ?ms = "map (\<lambda>i. \<Sum>j<R. dur (calls w + i * R + j) (gen n)) [0..<T]"
  let ?m = "Min ((\<lambda>r. \<Sum>j<R. dur (calls w + r * R + j) (gen n)) ` {..<T})"
  let ?w2 = "?w1\<lparr>calls := calls w + T * R\<rparr>"
  have rep: "repeat (\<lambda>k d. Inr (dur k d)) (gen n) T R ?w1 = (Inr ?ms, ?w2)"
    by (simp add: repeat_total)
  have "?ms \<noteq> []" using assms by simp
  from np_min_Min [OF this] have mn: "np_min ?ms = Inr ?m"
    by (simp add: lessThan_atLeast0)
  have step: "measure_loop (\<lambda>k d. Inr (dur k d)) (\<lambda>n. Inr (gen n)) n_repeats n_timings
            (enumerate k (n # ns)) et w =
      measure_loop (\<lambda>k d. Inr (dur k d)) (\<lambda>n. Inr (gen n)) n_repeats n_timings
            (enumerate (Suc k) ns) (et[k := ?m]) ?w2"
    using rep mn R T by (simp add: Let_def)
  from Cons.IH [of "Suc k" "et[k := ?m]" ?w2] obtain et' where et':
    "measure_loop (\<lambda>k d. Inr (dur k d)) (\<lambda>n. Inr (gen n)) n_repeats n_timings
            (enumerate (Suc k) ns) (et[k := ?m]) ?w2 =
       (Inr et', ?w2\<lparr>generated := generated ?w2 @ ns, calls := calls ?w2 + length ns * (T * R)\<rparr>)"
    "length et' = length (et[k := ?m])"
    "\<forall>j<Suc k. et' ! j = (et[k := ?m]) ! j"
    "\<forall>i<length ns. Suc k + i < length (et[k := ?m]) \<longrightarrow>
        et' ! (Suc k + i) =
          Min ((\<lambda>r. \<Sum>j<R. dur (calls ?w2 + i * (T * R) + r * R + j) (gen (ns ! i))) ` {..<T})"
    by blast
  have 1: "measure_loop (\<lambda>k d. Inr (dur k d)) (\<lambda>n. Inr (gen n)) n_repeats n_timings
            (enumerate k (n # ns)) et w =
       (Inr et', w\<lparr>generated := generated w @ (n # ns),
                   calls := calls w + length (n # ns) * (T * R)\<rparr>)"
    unfolding step et'(1) by (simp add: add.assoc)
  have 2: "length et' = length et" using et'(2) by simp
  have 3: "\<forall>j<k. et' ! j = et ! j" using et'(3) by simp
  have 4: "\<forall>i<length (n # ns). k + i < length et \<longrightarrow>
        et' ! (k + i) =
          Min ((\<lambda>r. \<Sum>j<R. dur (calls w + i * (T * R) + r * R + j) (gen ((n # ns) ! i))) ` {..<T})"
  proof (intro allI impI)
    fix i assume i: "i < length (n # ns)" "k + i < length et"
    show "et' ! (k + i) =
          Min ((\<lambda>r. \<Sum>j<R. dur (calls w + i * (T * R) + r * R + j) (gen ((n # ns) ! i))) ` {..<T})"
    proof (cases i)
      case 0
      with et'(3) i(2) show ?thesis by simp
    next
      case (Suc i')
      with i have "i' < length ns" "Suc k + i' < length (et[k := ?m])" by simp_all
      with et'(4) have "et' ! (Suc k + i') =
          Min ((\<lambda>r. \<Sum>j<R. dur (calls ?w2 + i' * (T * R) + r * R + j) (gen (ns ! i'))) ` {..<T})"
        by blast
      then show ?thesis using Suc by (simp add: add.assoc)
    qed
  qed
  from 1 2 3 4 show ?case by blast
qed

section \<open>The sampled sizes\<close>

lemma linspace_closed:
  assumes "0 \<le> num"
  shows "linspace a b num =
     Inr (map (\<lambda>i. a + real i * ((b - a) / real_of_int (num - 1))) [0..<nat num])"
proof (cases "1 < num")
  case True
  let ?f = "\<lambda>i. a + real i * ((b - a) / real_of_int (num - 1))"
  let ?n = "nat num"
  have dv: "0 < real_of_int (num - 1)" using True by simp
  have y: "map (\<lambda>v. v + a)
      (if (b - a) / real_of_int (num - 1) = 0
       then map (\<lambda>v. v / real_of_int (num - 1) * (b - a)) (map real [0..<?n])
       else map (\<lambda>v. v * ((b - a) / real_of_int (num - 1))) (map real [0..<?n])) = map ?f [0..<?n]"
    by (simp add: add.commute)
  have "real (?n - 1) = real_of_int (num - 1)" using True by (simp add: of_nat_diff)
  then have "?f (?n - 1) = b" using dv by simp
  moreover have "?n - 1 < ?n" using True by simp
  ultimately have upd: "(map ?f [0..<?n])[?n - 1 := b] = map ?f [0..<?n]"
    by (intro nth_equalityI) (auto simp: nth_list_update)
  have "linspace a b num = Inr ((map (\<lambda>v. v + a)
      (if (b - a) / real_of_int (num - 1) = 0
       then map (\<lambda>v. v / real_of_int (num - 1) * (b - a)) (map real [0..<?n])
       else map (\<lambda>v. v * ((b - a) / real_of_int (num - 1))) (map real [0..<?n])))[?n - 1 := b])"
    using True by (simp add: linspace_def Let_def)
  then show ?thesis unfolding y upd .
next
  case False
  with assms have "num = 0 \<or> num = 1" by auto
  then show ?thesis by (auto simp: linspace_def Let_def)
qed





lemma measure_three_points: "measure_execution_time (\<lambda>k d. Inr (real k + real_of_int d)) (\<lambda>n. Inr n) 1 10 3 1 1
      \<lparr>calls = 0, generated = [], allocated = 0\<rparr>
    = (Inr ([1, 5, 10], [1, 6, 12]), \<lparr>calls = 3, generated = [1, 5, 10], allocated = 0\<rparr>)"
  by (simp add: measure_execution_time_def linspace_def astype_int64_def Let_def upt_rec
      enumerate_eq_zip eval_nat_numeral)

section \<open>Properties of the selector\<close>




text \<open>
  C7. When the selector returns, the residual map has exactly one entry per candidate, in
  the order of the candidate list: entry \<open>i\<close> is keyed by the instance constructed for
  candidate \<open>i\<close> (a new identity, the class, the fitted coefficients) and holds the residual
  its fit returned, whether or not that candidate was selected; no two keys coincide.
\<close>

theorem residual_map_complete:
  assumes "infer_big_o_class fit ns time classes w = (Inr (best, fitted), w')"
  shows "length fitted = length classes \<and> distinct (map fst fitted) \<and>
     (\<forall>i<length classes. \<exists>p r. fit (classes ! i) ns time = Inr (p, r) \<and>
        fitted ! i = (Inst \<lparr>inst_id = allocated w + i, inst_class = classes ! i, coeff = Some p\<rparr>,
                      Residual r))"
proof -
  note e = infer_big_o_class_entries [OF assms]
  from e have "\<forall>i<length fitted. \<exists>p r.
        fitted ! i = (Inst \<lparr>inst_id = allocated w + i, inst_class = classes ! i, coeff = Some p\<rparr>,
                      Residual r)"
    by auto
  from entries_distinct [OF this] e show ?thesis by blast
qed

theorem residual_map_complete_witness:
  "infer_big_o_class
     (\<lambda>c ns t. if c = ''Linear'' then Inr ([2, 1 :: real], Finite 0) else Inr ([5], Finite 3))
     [100, 200] [1, 2] [''Constant'', ''Linear''] \<lparr>calls = 0, generated = [], allocated = 7\<rparr>
   = (Inr (Some \<lparr>inst_id = 8, inst_class = ''Linear'', coeff = Some [2, 1]\<rparr>,
           [(Inst \<lparr>inst_id = 7, inst_class = ''Constant'', coeff = Some [5]\<rparr>, Residual (Finite 3)),
            (Inst \<lparr>inst_id = 8, inst_class = ''Linear'', coeff = Some [2, 1]\<rparr>, Residual (Finite 0))]),
      \<lparr>calls = 0, generated = [], allocated = 9\<rparr>) \<and>
   length [(Inst \<lparr>inst_id = 7, inst_class = ''Constant'', coeff = Some [5 :: real]\<rparr>, Residual (Finite 3)),
            (Inst \<lparr>inst_id = 8, inst_class = ''Linear'', coeff = Some [2, 1]\<rparr>, Residual (Finite 0))]
     = length [''Constant'', ''Linear''] \<and>
   distinct (map fst
           [(Inst \<lparr>inst_id = 7, inst_class = ''Constant'', coeff = Some [5 :: real]\<rparr>, Residual (Finite 3)),
            (Inst \<lparr>inst_id = 8, inst_class = ''Linear'', coeff = Some [2, 1]\<rparr>, Residual (Finite 0))])"
proof -
  have h: "infer_big_o_class
     (\<lambda>c ns t. if c = ''Linear'' then Inr ([2, 1 :: real], Finite 0) else Inr ([5], Finite 3))
     [100, 200] [1, 2] [''Constant'', ''Linear''] \<lparr>calls = 0, generated = [], allocated = 7\<rparr>
   = (Inr (Some \<lparr>inst_id = 8, inst_class = ''Linear'', coeff = Some [2, 1]\<rparr>,
           [(Inst \<lparr>inst_id = 7, inst_class = ''Constant'', coeff = Some [5]\<rparr>, Residual (Finite 3)),
            (Inst \<lparr>inst_id = 8, inst_class = ''Linear'', coeff = Some [2, 1]\<rparr>, Residual (Finite 0))]),
      \<lparr>calls = 0, generated = [], allocated = 9\<rparr>)"
    by (simp add: infer_big_o_class_def Let_def)
  from residual_map_complete [OF h] h show ?thesis by blast
qed





text \<open>
  C9. The selector has no hidden state: for the same observations and candidates, two calls
  in any two worlds give the same outcome once identities are taken relative to the start
  of each call, that is the same exception, or the same best model (position in the
  candidate list, class, fitted coefficients) and residual maps that agree entry by entry
  (key class and coefficients, residual value). The fit of a class is a function of the
  class and the observations here, as the specification says it is.
\<close>

theorem selection_deterministic:
  "map_sum id (rebase_result (allocated w1)) (fst (infer_big_o_class fit ns time classes w1)) =
   map_sum id (rebase_result (allocated w2)) (fst (infer_big_o_class fit ns time classes w2))"
  by (simp only: infer_big_o_class_canonical)

section \<open>Properties of the orchestrator\<close>

text \<open>
  C8. Without \<^verbatim>\<open>return_raw_data\<close>, \<^verbatim>\<open>big_o\<close> is the harness followed by the selector and
  nothing else: same result, same exceptions, same final world.
\<close>

theorem big_o_is_composition:
  "big_o func data_generator min_n max_n n_measures n_repeats n_timings fit classes False w =
   harness_then_selector func data_generator min_n max_n n_measures n_repeats n_timings fit classes w"
  by (simp add: big_o_def harness_then_selector_def and_then_def split: prod.splits sum.splits)

text \<open>
  C6. With \<^verbatim>\<open>return_raw_data\<close>, the map that \<^verbatim>\<open>big_o\<close> returns is the map of the selector,
  entries unchanged and in place, followed by exactly two more entries: the key
  \<open>'measures'\<close> with the measured sizes and the key \<open>'times'\<close> with the measured durations, as
  the harness returned them. Every other key is a model instance (holding a residual), so
  the two string keys cannot be confused with one.
\<close>

theorem raw_data_entries:
  assumes "big_o func data_generator min_n max_n n_measures n_repeats n_timings fit classes
             True w = (Inr (best, fitted'), w')"
  shows "\<exists>ns time w1 fitted.
     measure_execution_time func data_generator min_n max_n n_measures n_repeats n_timings w
       = (Inr (ns, time), w1) \<and>
     infer_big_o_class fit ns time classes w1 = (Inr (best, fitted), w') \<and>
     fitted' = fitted @ [(Str ''measures'', Sizes ns), (Str ''times'', Times time)] \<and>
     (\<forall>kv\<in>set fitted. \<exists>i r. kv = (Inst i, Residual r))"
proof -
  from assms obtain ns time w1 where
    m: "measure_execution_time func data_generator min_n max_n n_measures n_repeats n_timings w
       = (Inr (ns, time), w1)"
    by (auto simp: big_o_def split: prod.splits sum.splits)
  with assms obtain fitted where
    i: "infer_big_o_class fit ns time classes w1 = (Inr (best, fitted), w')"
    and f: "fitted' = dict_set (dict_set fitted (Str ''measures'') (Sizes ns))
                        (Str ''times'') (Times time)"
    by (auto simp: big_o_def split: prod.splits sum.splits)
  note om = entries_only_models [OF i]
  have "Str ''measures'' \<notin> fst ` set fitted" using om by force
  then have 1: "dict_set fitted (Str ''measures'') (Sizes ns) = fitted @ [(Str ''measures'', Sizes ns)]"
    by (rule dict_set_fresh)
  have "Str ''times'' \<notin> fst ` set (fitted @ [(Str ''measures'', Sizes ns)])" using om by force
  then have "dict_set (fitted @ [(Str ''measures'', Sizes ns)]) (Str ''times'') (Times time)
      = (fitted @ [(Str ''measures'', Sizes ns)]) @ [(Str ''times'', Times time)]"
    by (rule dict_set_fresh)
  with f 1 have "fitted' = fitted @ [(Str ''measures'', Sizes ns), (Str ''times'', Times time)]"
    by simp
  with m i om show ?thesis by blast
qed

theorem raw_data_entries_witness:
  "\<exists>ns time w1 fitted.
     measure_execution_time (\<lambda>k d. Inr (real k + real_of_int d)) (\<lambda>n. Inr n) 1 10 3 1 1
       \<lparr>calls = 0, generated = [], allocated = 0\<rparr> = (Inr (ns, time), w1) \<and>
     infer_big_o_class
       (\<lambda>c ns t. if c = ''Linear'' then Inr ([2, 1 :: real], Finite 0) else Inr ([5], Finite 3))
       ns time [''Constant'', ''Linear''] w1
       = (Inr (Some \<lparr>inst_id = 1, inst_class = ''Linear'', coeff = Some [2, 1]\<rparr>, fitted),
          \<lparr>calls = 3, generated = [1, 5, 10], allocated = 2\<rparr>) \<and>
     [(Inst \<lparr>inst_id = 0, inst_class = ''Constant'', coeff = Some [5]\<rparr>, Residual (Finite 3)),
      (Inst \<lparr>inst_id = 1, inst_class = ''Linear'', coeff = Some [2, 1]\<rparr>, Residual (Finite 0)),
      (Str ''measures'', Sizes [1, 5, 10]), (Str ''times'', Times [1, 6, 12])]
       = fitted @ [(Str ''measures'', Sizes ns), (Str ''times'', Times time)] \<and>
     (\<forall>kv\<in>set fitted. \<exists>i r. kv = (Inst i, Residual r))"
proof -
  have h: "big_o (\<lambda>k d. Inr (real k + real_of_int d)) (\<lambda>n. Inr n) 1 10 3 1 1
       (\<lambda>c ns t. if c = ''Linear'' then Inr ([2, 1 :: real], Finite 0) else Inr ([5], Finite 3))
       [''Constant'', ''Linear''] True \<lparr>calls = 0, generated = [], allocated = 0\<rparr>
     = (Inr (Some \<lparr>inst_id = 1, inst_class = ''Linear'', coeff = Some [2, 1]\<rparr>,
         [(Inst \<lparr>inst_id = 0, inst_class = ''Constant'', coeff = Some [5]\<rparr>, Residual (Finite 3)),
          (Inst \<lparr>inst_id = 1, inst_class = ''Linear'', coeff = Some [2, 1]\<rparr>, Residual (Finite 0)),
          (Str ''measures'', Sizes [1, 5, 10]), (Str ''times'', Times [1, 6, 12])]),
        \<lparr>calls = 3, generated = [1, 5, 10], allocated = 2\<rparr>)"
    by (simp add: big_o_def measure_three_points infer_big_o_class_def Let_def)
  from raw_data_entries [OF h] show ?thesis .
qed

section \<open>Properties of the harness\<close>




text \<open>
  C3 (as the code has it). A negative number of points makes \<^verbatim>\<open>np.linspace\<close> raise before
  anything else happens: \<^verbatim>\<open>measure_execution_time\<close> and \<^verbatim>\<open>big_o\<close> end with \<open>ValueError\<close> in
  an unchanged world, so neither the callable nor the data generator has been invoked. With
  zero points the harness raises nothing: it returns two empty arrays, again in an unchanged
  world.
\<close>

theorem negative_count_raises_before_measuring:
  "(n_measures < 0 \<longrightarrow>
      measure_execution_time func data_generator min_n max_n n_measures n_repeats n_timings w
        = (Inl ValueError, w) \<and>
      big_o func data_generator min_n max_n n_measures n_repeats n_timings fit classes
        return_raw_data w = (Inl ValueError, w)) \<and>
   (n_measures = 0 \<longrightarrow>
      measure_execution_time func data_generator min_n max_n n_measures n_repeats n_timings w
        = (Inr ([], []), w))"
  by (simp add: measure_execution_time_def big_o_def linspace_def Let_def)

theorem negative_count_raises_before_measuring_witness:
  "measure_execution_time (\<lambda>k d. Inr (real k + real_of_int d)) (\<lambda>n. Inr n) 1 10 (- 1) 1 1
      \<lparr>calls = 0, generated = [], allocated = 0\<rparr>
    = (Inl ValueError, \<lparr>calls = 0, generated = [], allocated = 0\<rparr>) \<and>
   big_o (\<lambda>k d. Inr (real k + real_of_int d)) (\<lambda>n. Inr n) 1 10 (- 1) 1 1
      (\<lambda>c ns t. Inr ([0 :: real], Finite 0)) [''Constant''] False
      \<lparr>calls = 0, generated = [], allocated = 0\<rparr>
    = (Inl ValueError, \<lparr>calls = 0, generated = [], allocated = 0\<rparr>) \<and>
   measure_execution_time (\<lambda>k d. Inr (real k + real_of_int d)) (\<lambda>n. Inr n) 1 10 0 1 1
      \<lparr>calls = 0, generated = [], allocated = 0\<rparr>
    = (Inr ([], []), \<lparr>calls = 0, generated = [], allocated = 0\<rparr>)"
  using negative_count_raises_before_measuring
      [of "- 1" "\<lambda>k d. Inr (real k + real_of_int d)" "\<lambda>n. Inr n" 1 10 1 1
        "\<lparr>calls = 0, generated = [], allocated = 0\<rparr>" "\<lambda>c ns t. Inr ([0 :: real], Finite 0)"
        "[''Constant'']" False]
    negative_count_raises_before_measuring
      [of 0 "\<lambda>k d. Inr (real k + real_of_int d)" "\<lambda>n. Inr n" 1 10 1 1
        "\<lparr>calls = 0, generated = [], allocated = 0\<rparr>" "\<lambda>c ns t. Inr ([0 :: real], Finite 0)"
        "[''Constant'']" False]
  by simp

text \<open>
  Neither a zero point count nor \<open>max_n < min_n\<close> is rejected: the first returns an empty
  observation set, the second measures at the sizes 5 and 1, invoking generator and callable.
\<close>

theorem invalid_plan_not_rejected_counterexample:
  "measure_execution_time (\<lambda>k d. Inr (real k + real_of_int d)) (\<lambda>n. Inr n) 1 10 0 1 1
      \<lparr>calls = 0, generated = [], allocated = 0\<rparr>
    = (Inr ([], []), \<lparr>calls = 0, generated = [], allocated = 0\<rparr>) \<and>
   measure_execution_time (\<lambda>k d. Inr (real k + real_of_int d)) (\<lambda>n. Inr n) 5 1 2 1 1
      \<lparr>calls = 0, generated = [], allocated = 0\<rparr>
    = (Inr ([5, 1], [5, 2]), \<lparr>calls = 2, generated = [5, 1], allocated = 0\<rparr>)"
  by (simp add: measure_execution_time_def linspace_def astype_int64_def Let_def upt_rec
      enumerate_eq_zip eval_nat_numeral)

text \<open>
  C5. For a callable and a data generator that do not raise, a non-negative number of points
  and at least one timing round, \<^verbatim>\<open>measure_execution_time\<close> returns, and the time recorded
  for size \<open>i\<close> is the minimum over the \<open>n_timings\<close> rounds of the round's total, the sum of
  the durations of \<open>n_repeats\<close> consecutive invocations of the callable, all on the one input
  generated for that size: the generator has been called exactly once per size, in order,
  and the callable \<open>n_timings * n_repeats\<close> times per size.
\<close>

theorem observed_time_is_min_over_rounds:
  assumes "0 \<le> n_measures" and "1 \<le> n_timings"
  shows "\<exists>ns time w'.
     measure_execution_time (\<lambda>k d. Inr (dur k d)) (\<lambda>n. Inr (gen n)) min_n max_n n_measures
       n_repeats n_timings w = (Inr (ns, time), w') \<and>
     length ns = nat n_measures \<and> length time = nat n_measures \<and>
     generated w' = generated w @ ns \<and>
     calls w' = calls w + nat n_measures * (nat n_timings * nat n_repeats) \<and>
     (\<forall>i<nat n_measures.
        time ! i =
          Min ((\<lambda>r. \<Sum>j<nat n_repeats.
                      dur (calls w + i * (nat n_timings * nat n_repeats) + r * nat n_repeats + j)
                          (gen (ns ! i)))
               ` {..<nat n_timings}))"
proof -
  let ?T = "nat n_timings" and ?R = "nat n_repeats" and ?n = "nat n_measures"
  obtain ys where ys: "linspace (real_of_int min_n) (real_of_int max_n) n_measures = Inr ys"
    and ly: "length ys = ?n"
    using linspace_closed [OF assms(1), of "real_of_int min_n" "real_of_int max_n"] by simp
  let ?ns = "map astype_int64 ys"
  have T: "0 < ?T" using assms(2) by simp
  from measure_loop_total [OF T refl refl, of dur gen n_repeats 0 ?ns "replicate ?n 0" w]
  obtain et' where et':
    "measure_loop (\<lambda>k d. Inr (dur k d)) (\<lambda>n. Inr (gen n)) n_repeats n_timings
        (enumerate 0 ?ns) (replicate ?n 0) w =
       (Inr et', w\<lparr>generated := generated w @ ?ns, calls := calls w + length ?ns * (?T * ?R)\<rparr>)"
    "length et' = length (replicate ?n (0 :: real))"
    "\<forall>i<length ?ns. 0 + i < length (replicate ?n (0 :: real)) \<longrightarrow>
        et' ! (0 + i) =
          Min ((\<lambda>r. \<Sum>j<?R. dur (calls w + i * (?T * ?R) + r * ?R + j) (gen (?ns ! i))) ` {..<?T})"
    by blast
  let ?w' = "w\<lparr>generated := generated w @ ?ns, calls := calls w + length ?ns * (?T * ?R)\<rparr>"
  have "measure_execution_time (\<lambda>k d. Inr (dur k d)) (\<lambda>n. Inr (gen n)) min_n max_n n_measures
       n_repeats n_timings w = (Inr (?ns, et'), ?w')"
    by (simp add: measure_execution_time_def ys et'(1) Let_def)
  moreover have "length ?ns = ?n" using ly by simp
  moreover have "length et' = ?n" using et'(2) by simp
  moreover have "generated ?w' = generated w @ ?ns" by simp
  moreover have "calls ?w' = calls w + ?n * (?T * ?R)" using ly by simp
  moreover have "\<forall>i<?n. et' ! i =
          Min ((\<lambda>r. \<Sum>j<?R. dur (calls w + i * (?T * ?R) + r * ?R + j) (gen (?ns ! i))) ` {..<?T})"
    using et'(3) ly by simp
  ultimately show ?thesis by blast
qed

theorem observed_time_is_min_over_rounds_witness:
  "\<exists>ns time w'.
     measure_execution_time (\<lambda>k d. Inr (real k + real_of_int d)) (\<lambda>n. Inr n) 1 10 3 2 2
       \<lparr>calls = 0, generated = [], allocated = 0\<rparr> = (Inr (ns, time), w') \<and>
     length ns = nat 3 \<and> length time = nat 3 \<and>
     generated w' = generated \<lparr>calls = 0, generated = [], allocated = 0\<rparr> @ ns \<and>
     calls w' = calls \<lparr>calls = 0, generated = [], allocated = 0\<rparr> + nat 3 * (nat 2 * nat 2) \<and>
     (\<forall>i<nat 3.
        time ! i =
          Min ((\<lambda>r. \<Sum>j<nat 2.
                      real (calls \<lparr>calls = 0, generated = [], allocated = 0\<rparr>
                            + i * (nat 2 * nat 2) + r * nat 2 + j)
                      + real_of_int (ns ! i))
               ` {..<nat 2}))"
proof -
  have a: "(0 :: int) \<le> 3" and b: "(1 :: int) \<le> 2" by simp_all
  from observed_time_is_min_over_rounds [OF a b, of "\<lambda>k d. real k + real_of_int d" "\<lambda>n. n" 1 10 2
      "\<lparr>calls = 0, generated = [], allocated = 0\<rparr>"]
  show ?thesis .
qed

end
